theory Spec2Isabelle
  imports Main "HOL-Library.AList" "HOL-Library.Sublist"
begin

section \<open>Python strings, integers and errors\<close>

text \<open>
  A Python \<open>str\<close> is modelled as a \<open>string\<close>, one \<open>char\<close> per code point (code points
  below 256). Every exception the modelled code can raise is a value of \<open>error\<close>, and a
  function that can raise returns \<open>error + 'a\<close>.
\<close>

datatype error =
    NotImplementedError
  | ValueError
  | KeyError
  | IndexError
  | CodecRangeError
  | CodecFormatError

definition digits_dec :: string where
  "digits_dec = ''0123456789''"

text \<open>\<open>str.ljust(width, " ")\<close> and \<open>str.rjust(width, " ")\<close>: a string that is already
  \<open>width\<close> long or longer is returned as it is.\<close>

definition ljust :: "int \<Rightarrow> string \<Rightarrow> string" where
  "ljust width s = s @ replicate (nat (width - int (length s))) CHR '' ''"

definition rjust :: "int \<Rightarrow> string \<Rightarrow> string" where
  "rjust width s = replicate (nat (width - int (length s))) CHR '' '' @ s"

text \<open>\<open>str(n)\<close> for an integer: the decimal numeral, with a minus sign when negative.\<close>

fun str_nat :: "nat \<Rightarrow> string" where
  "str_nat n = (if n < 10 then [digits_dec ! n] else str_nat (n div 10) @ [digits_dec ! (n mod 10)])"

declare str_nat.simps [simp del]

definition py_str :: "int \<Rightarrow> string" where
  "py_str n = (if n < 0 then CHR ''-'' # str_nat (nat (- n)) else str_nat (nat n))"

text \<open>\<open>str.isspace\<close> on one character, for the code points below 256, and \<open>str.strip()\<close>.\<close>

definition py_isspace :: "char \<Rightarrow> bool" where
  "py_isspace c \<longleftrightarrow>
     (let k = (of_char c :: nat) in (9 \<le> k \<and> k \<le> 13) \<or> (28 \<le> k \<and> k \<le> 32) \<or> k = 133 \<or> k = 160)"

definition strip :: "string \<Rightarrow> string" where
  "strip s = rev (dropWhile py_isspace (rev (dropWhile py_isspace s)))"

text \<open>\<open>str.isdigit()\<close>: the string is not empty and every character is a digit. Below
  code point 256 the digits are \<open>0\<close> to \<open>9\<close> and the superscripts two, three and one
  (178, 179, 185).\<close>

definition py_isdigit_char :: "char \<Rightarrow> bool" where
  "py_isdigit_char c \<longleftrightarrow>
     (let k = (of_char c :: nat) in (48 \<le> k \<and> k \<le> 57) \<or> k = 178 \<or> k = 179 \<or> k = 185)"

definition py_isdigit :: "string \<Rightarrow> bool" where
  "py_isdigit s \<longleftrightarrow> s \<noteq> [] \<and> list_all py_isdigit_char s"

text \<open>Position of a character in an alphabet (\<open>str.index\<close>, \<open>None\<close> when absent).\<close>

fun index_of :: "'a list \<Rightarrow> 'a \<Rightarrow> nat option" where
  "index_of [] c = None"
| "index_of (x # xs) c = (if x = c then Some 0 else map_option Suc (index_of xs c))"

text \<open>Reading a numeral over an alphabet, most significant character first; \<open>None\<close> when
  a character is not in the alphabet.\<close>

fun decode_acc :: "string \<Rightarrow> nat \<Rightarrow> string \<Rightarrow> nat option" where
  "decode_acc digs acc [] = Some acc"
| "decode_acc digs acc (c # cs) =
     (case index_of digs c of
        None \<Rightarrow> None
      | Some d \<Rightarrow> decode_acc digs (acc * length digs + d) cs)"

text \<open>\<open>int(s)\<close> as the code calls it, on a string for which \<open>isdigit()\<close> holds: the decimal
  value, \<open>ValueError\<close> on a digit that is not \<open>0\<close> to \<open>9\<close>.\<close>

definition py_int :: "string \<Rightarrow> error + int" where
  "py_int s =
     (if s = [] then Inl ValueError
      else case decode_acc digits_dec 0 s of
             None \<Rightarrow> Inl ValueError
           | Some v \<Rightarrow> Inr (int v))"

section \<open>The hybrid-36 helpers of \<open>utils\<close>\<close>

text \<open>Modelled from the spec: the base-36 alphabets \<open>0-9A-Z\<close> and \<open>0-9a-z\<close> of the
  encoding rule and the two 26-letter blocks of leading characters; module \<open>utils\<close> is
  not among the sources.\<close>

definition digits_upper :: string where
  "digits_upper = ''0123456789ABCDEFGHIJKLMNOPQRSTUVWXYZ''"

definition digits_lower :: string where
  "digits_lower = ''0123456789abcdefghijklmnopqrstuvwxyz''"

definition letters_upper :: string where
  "letters_upper = ''ABCDEFGHIJKLMNOPQRSTUVWXYZ''"

definition letters_lower :: string where
  "letters_lower = ''abcdefghijklmnopqrstuvwxyz''"

text \<open>Modelled from the spec: a value rendered over an alphabet, zero-padded to exactly
  \<open>k\<close> characters (the "zero-padded decimal" and the "base 36 ... zero-padded" of the
  encoding rule).\<close>

fun encode_fixed :: "string \<Rightarrow> nat \<Rightarrow> nat \<Rightarrow> string" where
  "encode_fixed digs 0 v = []"
| "encode_fixed digs (Suc k) v =
     encode_fixed digs k (v div length digs) @ [digs ! (v mod length digs)]"

text \<open>Modelled from the spec: \<open>utils.int_2_h36\<close>, the encoding rule of the hybrid-36 scheme
  at width \<open>w\<close>. Decimal below \<open>10^w\<close>; then \<open>26 * 36^(w-1)\<close> values with an upper-case
  leading letter; then as many with a lower-case one; anything else fails. The contract
  asks for a positive width, so width 0 fails as well.\<close>

definition int_2_h36 :: "int \<Rightarrow> nat \<Rightarrow> error + string" where
  "int_2_h36 number width =
     (if width = 0 then Inl CodecRangeError
      else
        let p = (36::nat) ^ (width - 1); lo = (10::int) ^ width in
        if 0 \<le> number \<and> number < lo then
          Inr (encode_fixed digits_dec width (nat number))
        else if lo \<le> number \<and> number < lo + 26 * int p then
          (let m = nat (number - lo) in
           Inr (letters_upper ! (m div p) # encode_fixed digits_upper (width - 1) (m mod p)))
        else if lo + 26 * int p \<le> number \<and> number < lo + 52 * int p then
          (let m = nat (number - lo - 26 * int p) in
           Inr (letters_lower ! (m div p) # encode_fixed digits_lower (width - 1) (m mod p)))
        else Inl CodecRangeError)"

text \<open>Modelled from the spec: \<open>utils.h36_2_int\<close>, the inverse of the encoding rule for a
  string that is not plain decimal. The case of the leading character selects the
  26-letter block, the remaining characters are read in base 36 over that case's
  alphabet, and the offset \<open>10^w\<close> or \<open>10^w + 26 * 36^(w-1)\<close> is added; a character
  outside the expected alphabet makes decoding fail.\<close>

definition h36_2_int :: "string \<Rightarrow> error + int" where
  "h36_2_int s =
     (case s of
        [] \<Rightarrow> Inl CodecFormatError
      | c # cs \<Rightarrow>
          let w = length s; p = (36::nat) ^ (w - 1) in
          (case index_of letters_upper c of
             Some q \<Rightarrow>
               (case decode_acc digits_upper 0 cs of
                  None \<Rightarrow> Inl CodecFormatError
                | Some v \<Rightarrow> Inr (10 ^ w + int (q * p + v)))
           | None \<Rightarrow>
               (case index_of letters_lower c of
                  Some q \<Rightarrow>
                    (case decode_acc digits_lower 0 cs of
                       None \<Rightarrow> Inl CodecFormatError
                     | Some v \<Rightarrow> Inr (10 ^ w + 26 * int p + int (q * p + v)))
                | None \<Rightarrow> Inl CodecFormatError)))"

section \<open>Identifier types (\<open>pdb/types.py\<close>)\<close>

text \<open>The constructor argument of \<open>Number\<close> and \<open>ChainID\<close> is an \<open>int\<close>, a \<open>str\<close> or
  anything else.\<close>

datatype py_input = IntIn int | StrIn string | OtherIn

record Number =
  number_input :: py_input
  number_n :: int

text \<open>\<open>Number._convert_input\<close>. The result of \<open>inpt.strip()\<close> is not assigned, so
  \<open>isdigit\<close>, \<open>int\<close> and \<open>h36_2_int\<close> all receive the string as it was given. The
  decoder of \<open>utils\<close> is a parameter of the \<open>_with\<close> form.\<close>

definition Number_convert_input_with ::
    "(string \<Rightarrow> error + int) \<Rightarrow> py_input \<Rightarrow> error + int" where
  "Number_convert_input_with h36 inpt =
     (case inpt of
        IntIn i \<Rightarrow> Inr i
      | StrIn s \<Rightarrow> if py_isdigit s then py_int s else h36 s
      | OtherIn \<Rightarrow> Inl NotImplementedError)"

definition Number_convert_input :: "py_input \<Rightarrow> error + int" where
  "Number_convert_input = Number_convert_input_with h36_2_int"

text \<open>\<open>Number(inpt)\<close>: the dataclass constructor followed by \<open>__post_init__\<close>.\<close>

definition Number_init :: "py_input \<Rightarrow> error + Number" where
  "Number_init inpt =
     (case Number_convert_input inpt of
        Inl e \<Rightarrow> Inl e
      | Inr i \<Rightarrow> Inr \<lparr>number_input = inpt, number_n = i\<rparr>)"

definition Number_as_h36 :: "Number \<Rightarrow> nat \<Rightarrow> error + string" where
  "Number_as_h36 self width = int_2_h36 (number_n self) width"

definition Number_as_pdb4namd :: "Number \<Rightarrow> nat \<Rightarrow> error + string" where
  "Number_as_pdb4namd self width = Number_as_h36 self width"

definition Number_as_str :: "Number \<Rightarrow> string" where
  "Number_as_str self = py_str (number_n self)"

text \<open>The spec's \<open>encode(n, w)\<close> is \<open>Number(n).as_h36(w)\<close> and its \<open>decode(s)\<close> is
  \<open>Number(s).n\<close>.\<close>

definition encode :: "int \<Rightarrow> nat \<Rightarrow> error + string" where
  "encode n w = (case Number_init (IntIn n) of Inl e \<Rightarrow> Inl e | Inr x \<Rightarrow> Number_as_h36 x w)"

definition decode :: "string \<Rightarrow> error + int" where
  "decode s = (case Number_init (StrIn s) of Inl e \<Rightarrow> Inl e | Inr x \<Rightarrow> Inr (number_n x))"

record ChainID =
  chain_input :: py_input
  chain_n :: int

text \<open>\<open>ChainID._convert_input\<close>: the same code as \<open>Number._convert_input\<close>, with the
  same unassigned \<open>inpt.strip()\<close>.\<close>

definition ChainID_convert_input_with ::
    "(string \<Rightarrow> error + int) \<Rightarrow> py_input \<Rightarrow> error + int" where
  "ChainID_convert_input_with h36 inpt =
     (case inpt of
        IntIn i \<Rightarrow> Inr i
      | StrIn s \<Rightarrow> if py_isdigit s then py_int s else h36 s
      | OtherIn \<Rightarrow> Inl NotImplementedError)"

definition ChainID_convert_input :: "py_input \<Rightarrow> error + int" where
  "ChainID_convert_input = ChainID_convert_input_with h36_2_int"

definition ChainID_init :: "py_input \<Rightarrow> error + ChainID" where
  "ChainID_init inpt =
     (case ChainID_convert_input inpt of
        Inl e \<Rightarrow> Inl e
      | Inr i \<Rightarrow> Inr \<lparr>chain_input = inpt, chain_n = i\<rparr>)"




text \<open>\<open>ChainID.as_chimera\<close>: \<open>utils.int_2_chimeraSegID\<close> is not among the sources and is a
  parameter.\<close>

definition ChainID_as_chimera :: "(int \<Rightarrow> error + string) \<Rightarrow> ChainID \<Rightarrow> error + string" where
  "ChainID_as_chimera int_2_chimeraSegID self = int_2_chimeraSegID (chain_n self - 1)"

definition ChainID_as_str :: "ChainID \<Rightarrow> string" where
  "ChainID_as_str self = py_str (chain_n self)"

section \<open>Atom and residue names (\<open>pdb/types.py\<close>)\<close>

record AtomName =
  atomname_input :: string
  atomname_name :: string

definition AtomName_NAMD :: "(string \<times> string) list" where
  "AtomName_NAMD = [(''O1P'', ''OP1''), (''O2P'', ''OP2''), (''C5M'', ''C7'')]"

text \<open>A dictionary literal read by key, and the inverted dictionary
  \<open>{v: k for k, v in d.items()}\<close>, in which a later item overwrites an earlier one with
  the same value.\<close>

definition dict_get :: "('k \<times> 'v) list \<Rightarrow> 'k \<Rightarrow> 'v option" where
  "dict_get d k = map_of d k"

definition dict_invert :: "('k \<times> 'v) list \<Rightarrow> ('v \<times> 'k) list" where
  "dict_invert d = rev (map (\<lambda>(k, v). (v, k)) d)"

definition AtomName_convert_input :: "string \<Rightarrow> string" where
  "AtomName_convert_input ipt =
     (let ipt = strip ipt in
      case dict_get AtomName_NAMD ipt of Some v \<Rightarrow> v | None \<Rightarrow> ipt)"

definition AtomName_init :: "string \<Rightarrow> AtomName" where
  "AtomName_init ipt = \<lparr>atomname_input = ipt, atomname_name = AtomName_convert_input ipt\<rparr>"

definition AtomName_as_pdb4namd :: "AtomName \<Rightarrow> int \<Rightarrow> string" where
  "AtomName_as_pdb4namd self width =
     (let opt = atomname_name self;
          DMNA = dict_invert AtomName_NAMD;
          namePDB = (case dict_get DMNA opt of Some k \<Rightarrow> k | None \<Rightarrow> opt)
      in if length namePDB = 1 then rjust width (ljust 2 namePDB)
         else if length namePDB = 2 then rjust width (ljust 1 namePDB)
         else rjust width namePDB)"

definition AtomName_as_cif :: "AtomName \<Rightarrow> string" where
  "AtomName_as_cif self =
     (if CHR 0x27 \<in> set (atomname_name self)
      then [CHR 0x22] @ atomname_name self @ [CHR 0x22]
      else atomname_name self)"

definition AtomName_as_str :: "AtomName \<Rightarrow> string" where
  "AtomName_as_str self = atomname_name self"

record ResName =
  resname_input :: string
  resname_name :: string

definition ResName_NAMD :: "(string \<times> string) list" where
  "ResName_NAMD = [(''CYT'', ''DC''), (''GUA'', ''DG''), (''THY'', ''DT''), (''ADE'', ''DA'')]"

text \<open>\<open>ResName._convert_input\<close>: \<open>inpt.replace("5", "")\<close> removes every \<open>5\<close>; the \<open>3\<close> is
  looked for only when there is no \<open>5\<close>.\<close>

definition ResName_convert_input :: "string \<Rightarrow> string" where
  "ResName_convert_input inpt =
     (let inpt = strip inpt;
          inpt = (if CHR ''5'' \<in> set inpt then filter (\<lambda>c. c \<noteq> CHR ''5'') inpt
                  else if CHR ''3'' \<in> set inpt then filter (\<lambda>c. c \<noteq> CHR ''3'') inpt
                  else inpt)
      in case dict_get ResName_NAMD inpt of Some v \<Rightarrow> v | None \<Rightarrow> inpt)"

definition ResName_init :: "string \<Rightarrow> ResName" where
  "ResName_init inpt = \<lparr>resname_input = inpt, resname_name = ResName_convert_input inpt\<rparr>"

definition ResName_as_pdb4namd :: "ResName \<Rightarrow> int \<Rightarrow> error + string" where
  "ResName_as_pdb4namd self width =
     (case dict_get (dict_invert ResName_NAMD) (resname_name self) of
        None \<Rightarrow> Inl KeyError
      | Some k \<Rightarrow> Inr (rjust width k))"

definition ResName_as_str :: "ResName \<Rightarrow> string" where
  "ResName_as_str self = resname_name self"

text \<open>\<open>ResName.as_X\<close>: \<open>self.name[-1]\<close> raises \<open>IndexError\<close> on the empty name.\<close>

definition ResName_as_X :: "ResName \<Rightarrow> error + string" where
  "ResName_as_X self =
     (if resname_name self = [] then Inl IndexError else Inr [last (resname_name self)])"

section \<open>The structure and the CIF emitter (\<open>pdb/files.py\<close>)\<close>

text \<open>Modelled from the spec: the atom record and the structure of module \<open>structure\<close>,
  which is not among the sources, with the fields that \<open>files.py\<close> reads: the atom name,
  the residue name, the chain identifier and the residue number of an atom, and the
  name and the ordered atoms of a structure.\<close>

record Atom =
  atom_name :: AtomName
  res_name :: ResName
  chain_id :: ChainID
  res_number :: Number

record Structure =
  struct_name :: string
  struct_atoms :: "Atom list"

text \<open>A Python \<open>dict\<close> keeps its keys in insertion order, and assigning to a key that is
  present keeps the key's position: an association list with \<open>AList.update\<close>.\<close>

type_synonym chains_dict = "(int \<times> int) list"
type_synonym seqs_dict = "(int \<times> ResName list) list"

definition C3p :: string where
  "C3p = ''C3'' @ [CHR 0x27]"

text \<open>The body of the loop of \<open>CIF._get_chains_seqs\<close> for one atom \<open>a\<close>.\<close>

definition chains_seqs_step :: "Atom \<Rightarrow> chains_dict \<times> seqs_dict \<Rightarrow> chains_dict \<times> seqs_dict" where
  "chains_seqs_step a cs =
     (let chains = fst cs; seqs = snd cs;
          chain_id = chain_n (chain_id a);
          res_number = number_n (res_number a);
          chains = (case map_of chains chain_id of
                      None \<Rightarrow> AList.update chain_id res_number chains
                    | Some cur \<Rightarrow>
                        if res_number > cur then AList.update chain_id res_number chains
                        else chains);
          seqs = (case map_of seqs chain_id of
                    None \<Rightarrow> AList.update chain_id [res_name a] seqs
                  | Some s \<Rightarrow> AList.update chain_id (s @ [res_name a]) seqs)
      in (chains, seqs))"

definition get_chains_seqs :: "Structure \<Rightarrow> chains_dict \<times> seqs_dict" where
  "get_chains_seqs struct =
     (let C3ps = filter (\<lambda>a. AtomName_as_str (atom_name a) = C3p) (struct_atoms struct)
      in fold chains_seqs_step C3ps ([], []))"

text \<open>The emitter object: \<open>Atom.as_cif\<close> belongs to the missing module and is a
  parameter.\<close>

record CIF =
  cif_struct :: Structure
  cif_atoms :: "string list"
  cif_chains :: chains_dict
  cif_seqs :: seqs_dict

definition CIF_init :: "(Atom \<Rightarrow> string) \<Rightarrow> Structure \<Rightarrow> CIF" where
  "CIF_init as_cif struct =
     \<lparr>cif_struct = struct,
      cif_atoms = map as_cif (struct_atoms struct),
      cif_chains = fst (get_chains_seqs struct),
      cif_seqs = snd (get_chains_seqs struct)\<rparr>"

text \<open>One line of the entity block and one of the entity\_src block, for the item
  \<open>(chain_id, length)\<close> of \<open>self.chains\<close>.\<close>

definition entity_line :: "int \<times> int \<Rightarrow> string" where
  "entity_line item =
     (let chain_id = fst item; length = snd item;
          is_staple = length < 500;
          n = ljust 4 (py_str chain_id);
          src = (if is_staple then ''syn'' else ''?  '');
          typ = (if is_staple then [CHR 0x27] @ ''STAPLE STRAND'' @ [CHR 0x27] @ ''  ''
                 else [CHR 0x27] @ ''SCAFFOLD STRAND'' @ [CHR 0x27])
      in n @ '' polymer '' @ src @ '' '' @ typ @ '' ?   1 ? ? ? ?\<newline>'')"

definition entity_src_line :: "int \<times> int \<Rightarrow> string" where
  "entity_src_line item =
     (let chain_id = fst item; length = snd item;
          is_staple = length < 500;
          n = ljust 4 (py_str chain_id);
          typ = (if is_staple then [CHR 0x27] @ ''synthetic construct'' @ [CHR 0x27]
                 else ljust 21 ''?'');
          tax = (if is_staple then ''32630'' else ljust 5 ''?'')
      in n @ ''   1 sample 1 '' @ ljust 5 (py_str length) @ '' '' @ typ @ '' ? '' @ tax
           @ '' ?\<newline>'')"

text \<open>The writers append to the text written so far; the template texts come from
  resource files and are parameters.\<close>

definition write_entity :: "string \<Rightarrow> CIF \<Rightarrow> string \<Rightarrow> string" where
  "write_entity entity self file_out =
     fold (\<lambda>item out. out @ entity_line item) (cif_chains self) (file_out @ entity)"

definition write_entity_src :: "string \<Rightarrow> CIF \<Rightarrow> string \<Rightarrow> string" where
  "write_entity_src entity_src self file_out =
     fold (\<lambda>item out. out @ entity_src_line item) (cif_chains self) (file_out @ entity_src)"

text \<open>\<open>"".join([s.as_X() for s in seq])\<close> stops at the first residue name that raises.\<close>

fun join_as_X :: "ResName list \<Rightarrow> error + string" where
  "join_as_X [] = Inr []"
| "join_as_X (s # seq) =
     (case ResName_as_X s of
        Inl e \<Rightarrow> Inl e
      | Inr x \<Rightarrow> (case join_as_X seq of Inl e \<Rightarrow> Inl e | Inr r \<Rightarrow> Inr (x @ r)))"

definition entity_poly_record ::
    "(int \<Rightarrow> error + string) \<Rightarrow> int \<times> ResName list \<Rightarrow> error + string" where
  "entity_poly_record int_2_chimeraSegID item =
     (let chain_id = fst item; seq = snd item;
          n = ljust 4 (py_str chain_id)
      in case ChainID_init (IntIn chain_id) of
           Inl e \<Rightarrow> Inl e
         | Inr c \<Rightarrow>
             (case ChainID_as_chimera int_2_chimeraSegID c of
                Inl e \<Rightarrow> Inl e
              | Inr cid \<Rightarrow>
                  let seq1 = concat (map (\<lambda>s. ''('' @ ResName_as_str s @ '')'') seq) in
                  (case join_as_X seq of
                     Inl e \<Rightarrow> Inl e
                   | Inr seq2 \<Rightarrow>
                       Inr (n @ '' polydeoxyribonucleotide no no\<newline>;'' @ seq1
                            @ ''\<newline>;\<newline>'' @ seq2 @ '' '' @ cid @ '' ?\<newline>''))))"

fun write_poly_records ::
    "(int \<Rightarrow> error + string) \<Rightarrow> seqs_dict \<Rightarrow> string \<Rightarrow> error + string" where
  "write_poly_records f [] out = Inr out"
| "write_poly_records f (item # items) out =
     (case entity_poly_record f item of
        Inl e \<Rightarrow> Inl e
      | Inr r \<Rightarrow> write_poly_records f items (out @ r))"

definition write_entity_poly ::
    "string \<Rightarrow> (int \<Rightarrow> error + string) \<Rightarrow> CIF \<Rightarrow> string \<Rightarrow> error + string" where
  "write_entity_poly entity_poly int_2_chimeraSegID self file_out =
     write_poly_records int_2_chimeraSegID (cif_seqs self) (file_out @ entity_poly)"

text \<open>A worked structure: chain 1 with residues 1 (\<open>ADE\<close>) and 2 (\<open>CYT\<close>) and chain 2 with
  residue 1 (\<open>GUA\<close>), each residue with the three atoms \<open>P\<close>, \<open>C3'\<close> and \<open>N1\<close>.\<close>

definition mk_atom :: "string \<Rightarrow> string \<Rightarrow> int \<Rightarrow> int \<Rightarrow> Atom" where
  "mk_atom name res chain num =
     \<lparr>atom_name = AtomName_init name,
      res_name = ResName_init res,
      chain_id = \<lparr>chain_input = IntIn chain, chain_n = chain\<rparr>,
      res_number = \<lparr>number_input = IntIn num, number_n = num\<rparr>\<rparr>"

definition example_struct :: Structure where
  "example_struct =
     \<lparr>struct_name = ''example'',
      struct_atoms =
        [mk_atom ''P'' ''ADE'' 1 1, mk_atom C3p ''ADE'' 1 1, mk_atom ''N1'' ''ADE'' 1 1,
         mk_atom ''P'' ''CYT'' 1 2, mk_atom C3p ''CYT'' 1 2, mk_atom ''N1'' ''CYT'' 1 2,
         mk_atom ''P'' ''GUA'' 2 1, mk_atom C3p ''GUA'' 2 1, mk_atom ''N1'' ''GUA'' 2 1]\<rparr>"

text \<open>For worked runs of the emitter: an atom rendering and a chain-label helper that
  stand for the missing ones, and a structure whose second residue has a blank residue
  name, which \<open>ResName\<close> normalizes to the empty string.\<close>

definition example_as_cif :: "Atom \<Rightarrow> string" where
  "example_as_cif a = []"

definition example_chimera :: "int \<Rightarrow> error + string" where
  "example_chimera n = Inr ''AA''"

definition blank_resname_struct :: Structure where
  "blank_resname_struct =
     \<lparr>struct_name = ''blank'',
      struct_atoms = [mk_atom C3p ''ADE'' 1 1, mk_atom C3p ''   '' 1 2]\<rparr>"

section \<open>The hybrid-36 codec\<close>

lemma index_of_nth: "distinct xs \<Longrightarrow> i < length xs \<Longrightarrow> index_of xs (xs ! i) = Some i"
proof (induction xs arbitrary: i)
  case Nil
  then show ?case by simp
next
  case (Cons x xs)
  show ?case
  proof (cases i)
    case 0
    then show ?thesis by simp
  next
    case (Suc j)
    with Cons.prems have "xs ! j \<in> set xs" "x \<notin> set xs" by auto
    then have "x \<noteq> xs ! j" by blast
    with Cons Suc show ?thesis by simp
  qed
qed

lemma index_of_None_iff: "index_of xs c = None \<longleftrightarrow> c \<notin> set xs"
  by (induction xs) auto

lemma decode_acc_append:
  "decode_acc digs acc (xs @ ys) =
     (case decode_acc digs acc xs of None \<Rightarrow> None | Some a \<Rightarrow> decode_acc digs a ys)"
  by (induction xs arbitrary: acc) (auto split: option.splits)

lemma length_encode_fixed: "length (encode_fixed digs k v) = k"
  by (induction k arbitrary: v) auto

lemma set_encode_fixed: "digs \<noteq> [] \<Longrightarrow> set (encode_fixed digs k v) \<subseteq> set digs"
  by (induction k arbitrary: v) auto

lemma decode_encode_fixed:
  assumes "distinct digs" "digs \<noteq> []"
  shows "decode_acc digs acc (encode_fixed digs k v) =
           Some (acc * length digs ^ k + v mod length digs ^ k)"
proof (induction k arbitrary: v)
  case 0
  show ?case by simp
next
  case (Suc k)
  let ?b = "length digs"
  have b: "0 < ?b" using assms(2) by simp
  have ix: "index_of digs (digs ! (v mod ?b)) = Some (v mod ?b)"
    using assms(1) b by (intro index_of_nth) simp_all
  have split: "v mod (?b * ?b ^ k) = ?b * (v div ?b mod ?b ^ k) + v mod ?b"
    by (rule mod_mult2_eq)
  show ?case
    by (simp add: decode_acc_append Suc.IH ix split algebra_simps)
qed

lemma distinct_digits_dec: "distinct digits_dec"
  by (simp add: digits_dec_def)

lemma distinct_digits_upper: "distinct digits_upper"
  by (simp add: digits_upper_def)

lemma distinct_digits_lower: "distinct digits_lower"
  by (simp add: digits_lower_def)

lemma distinct_letters_upper: "distinct letters_upper"
  by (simp add: letters_upper_def)

lemma distinct_letters_lower: "distinct letters_lower"
  by (simp add: letters_lower_def)

lemma length_alphabets:
  "length digits_dec = 10" "length digits_upper = 36" "length digits_lower = 36"
  "length letters_upper = 26" "length letters_lower = 26"
  by (simp_all add: digits_dec_def digits_upper_def digits_lower_def
      letters_upper_def letters_lower_def)

lemma digits_dec_isdigit: "c \<in> set digits_dec \<Longrightarrow> py_isdigit_char c"
  by (auto simp: digits_dec_def py_isdigit_char_def)

lemma letters_upper_not_digit: "c \<in> set letters_upper \<Longrightarrow> \<not> py_isdigit_char c"
  by (auto simp: letters_upper_def py_isdigit_char_def)

lemma letters_lower_not_digit: "c \<in> set letters_lower \<Longrightarrow> \<not> py_isdigit_char c"
  by (auto simp: letters_lower_def py_isdigit_char_def)

lemma letters_lower_not_upper: "c \<in> set letters_lower \<Longrightarrow> c \<notin> set letters_upper"
  by (auto simp: letters_upper_def letters_lower_def)

lemma encode_eq: "encode n w = int_2_h36 n w"
  by (simp add: encode_def Number_init_def Number_convert_input_def
      Number_convert_input_with_def Number_as_h36_def)

lemma decode_eq:
  "decode s = (if py_isdigit s then py_int s else h36_2_int s)"
  by (simp add: decode_def Number_init_def Number_convert_input_def
      Number_convert_input_with_def split: sum.splits)

lemma round_trip_decimal:
  assumes "1 \<le> w" "0 \<le> n" "n < 10 ^ w"
  shows "int_2_h36 n w = Inr (encode_fixed digits_dec w (nat n))"
    and "decode (encode_fixed digits_dec w (nat n)) = Inr n"
    and "set (encode_fixed digits_dec w (nat n)) \<subseteq> set digits_dec"
proof -
  let ?s = "encode_fixed digits_dec w (nat n)"
  show "int_2_h36 n w = Inr ?s"
    using assms by (simp add: int_2_h36_def Let_def)
  have ne: "digits_dec \<noteq> []" by (simp add: digits_dec_def)
  show sub: "set ?s \<subseteq> set digits_dec"
    by (rule set_encode_fixed [OF ne])
  have len: "length ?s = w" by (rule length_encode_fixed)
  then have "?s \<noteq> []" using assms(1) by auto
  moreover have "list_all py_isdigit_char ?s"
    using sub digits_dec_isdigit by (auto simp: list_all_iff)
  ultimately have dig: "py_isdigit ?s" by (simp add: py_isdigit_def)
  have "nat n < 10 ^ w" using assms(2,3) by (simp add: nat_less_iff)
  then have "decode_acc digits_dec 0 ?s = Some (nat n)"
    by (simp add: decode_encode_fixed [OF distinct_digits_dec ne] length_alphabets)
  then have "py_int ?s = Inr n"
    using \<open>?s \<noteq> []\<close> assms(2) by (simp add: py_int_def)
  then show "decode ?s = Inr n"
    using dig by (simp add: decode_eq)
qed

lemma h36_2_int_upper:
  assumes "index_of letters_upper c = Some q" "decode_acc digits_upper 0 cs = Some v"
  shows "h36_2_int (c # cs) = Inr (10 ^ Suc (length cs) + int (q * 36 ^ length cs + v))"
  using assms by (simp add: h36_2_int_def Let_def)

lemma h36_2_int_lower:
  assumes "index_of letters_upper c = None" "index_of letters_lower c = Some q"
    "decode_acc digits_lower 0 cs = Some v"
  shows "h36_2_int (c # cs) =
           Inr (10 ^ Suc (length cs) + 26 * int (36 ^ length cs) + int (q * 36 ^ length cs + v))"
  using assms by (simp add: h36_2_int_def Let_def)

lemma div_mod_bound:
  fixes m p :: nat
  assumes "m < 26 * p"
  shows "m div p < 26"
  using assms by (simp add: less_mult_imp_div_less mult.commute)

lemma round_trip_upper:
  assumes "1 \<le> w" "10 ^ w \<le> n" "n < 10 ^ w + 26 * 36 ^ (w - 1)"
  defines "m \<equiv> nat (n - 10 ^ w)"
  defines "p \<equiv> (36::nat) ^ (w - 1)"
  defines "s \<equiv> letters_upper ! (m div p) # encode_fixed digits_upper (w - 1) (m mod p)"
  shows "int_2_h36 n w = Inr s" and "decode s = Inr n" and "hd s \<in> set letters_upper"
    and "length s = w"
proof -
  have n0: "0 \<le> n"
    using assms(2) by (smt (verit) zero_le_power)
  have mlt: "m < 26 * p"
    using assms(2,3) unfolding m_def p_def by (simp add: nat_less_iff)
  have q: "m div p < 26" using mlt by (rule div_mod_bound)
  show enc: "int_2_h36 n w = Inr s"
    using assms(1,2,3) unfolding s_def m_def p_def
    by (simp add: int_2_h36_def Let_def)
  have hd_in: "letters_upper ! (m div p) \<in> set letters_upper"
    using q by (simp add: length_alphabets)
  then show "hd s \<in> set letters_upper" by (simp add: s_def)
  show len: "length s = w"
    using assms(1) by (simp add: s_def length_encode_fixed)
  have nd: "\<not> py_isdigit s"
    using letters_upper_not_digit [OF hd_in] by (simp add: py_isdigit_def s_def)
  have ix: "index_of letters_upper (letters_upper ! (m div p)) = Some (m div p)"
    using q by (intro index_of_nth distinct_letters_upper) (simp add: length_alphabets)
  have ne: "digits_upper \<noteq> []" by (simp add: digits_upper_def)
  have rest: "decode_acc digits_upper 0 (encode_fixed digits_upper (w - 1) (m mod p)) = Some (m mod p)"
    by (simp add: decode_encode_fixed [OF distinct_digits_upper ne] length_alphabets p_def)
  have lw: "length (encode_fixed digits_upper (w - 1) (m mod p)) = w - 1"
    by (rule length_encode_fixed)
  obtain k where k: "w = Suc k" using assms(1) by (cases w) auto
  have "h36_2_int s = Inr (10 ^ w + int (m div p * p + m mod p))"
    unfolding s_def using h36_2_int_upper [OF ix rest]
    by (simp add: length_encode_fixed k p_def)
  also have "m div p * p + m mod p = m" by simp
  also have "10 ^ w + int m = n" using assms(2) by (simp add: m_def)
  finally show "decode s = Inr n" using nd by (simp add: decode_eq)
qed

lemma round_trip_lower:
  assumes "1 \<le> w" "10 ^ w + 26 * 36 ^ (w - 1) \<le> n" "n < 10 ^ w + 52 * 36 ^ (w - 1)"
  defines "p \<equiv> (36::nat) ^ (w - 1)"
  defines "m \<equiv> nat (n - 10 ^ w - 26 * int p)"
  defines "s \<equiv> letters_lower ! (m div p) # encode_fixed digits_lower (w - 1) (m mod p)"
  shows "int_2_h36 n w = Inr s" and "decode s = Inr n" and "hd s \<in> set letters_lower"
    and "length s = w"
proof -
  have lo: "(10::int) ^ w \<le> n"
    using assms(2) by (smt (verit) zero_le_power mult_nonneg_nonneg)
  have n0: "0 \<le> n"
    using lo by (smt (verit) zero_le_power)
  have mlt: "m < 26 * p"
    using assms(2,3) unfolding m_def p_def by (simp add: nat_less_iff)
  have q: "m div p < 26" using mlt by (rule div_mod_bound)
  show enc: "int_2_h36 n w = Inr s"
    using assms(1,2,3) lo unfolding s_def m_def p_def
    by (simp add: int_2_h36_def Let_def)
  have hd_in: "letters_lower ! (m div p) \<in> set letters_lower"
    using q by (simp add: length_alphabets)
  then show "hd s \<in> set letters_lower" by (simp add: s_def)
  show len: "length s = w"
    using assms(1) by (simp add: s_def length_encode_fixed)
  have nd: "\<not> py_isdigit s"
    using letters_lower_not_digit [OF hd_in] by (simp add: py_isdigit_def s_def)
  have nu: "index_of letters_upper (letters_lower ! (m div p)) = None"
    using letters_lower_not_upper [OF hd_in] by (simp add: index_of_None_iff)
  have ix: "index_of letters_lower (letters_lower ! (m div p)) = Some (m div p)"
    using q by (intro index_of_nth distinct_letters_lower) (simp add: length_alphabets)
  have ne: "digits_lower \<noteq> []" by (simp add: digits_lower_def)
  have rest: "decode_acc digits_lower 0 (encode_fixed digits_lower (w - 1) (m mod p)) = Some (m mod p)"
    by (simp add: decode_encode_fixed [OF distinct_digits_lower ne] length_alphabets p_def)
  have lw: "length (encode_fixed digits_lower (w - 1) (m mod p)) = w - 1"
    by (rule length_encode_fixed)
  obtain k where k: "w = Suc k" using assms(1) by (cases w) auto
  have "h36_2_int s = Inr (10 ^ w + 26 * int p + int (m div p * p + m mod p))"
    unfolding s_def using h36_2_int_lower [OF nu ix rest]
    by (simp add: length_encode_fixed k p_def)
  also have "m div p * p + m mod p = m" by simp
  also have "10 ^ w + 26 * int p + int m = n" using assms(2) by (simp add: m_def p_def)
  finally show "decode s = Inr n" using nd by (simp add: decode_eq)
qed

text \<open>
  Claim C1. Hybrid-36 round trip: for every width \<open>w \<ge> 1\<close> and every integer \<open>n\<close> with
  \<open>0 \<le> n < 10^w + 52 * 36^(w-1)\<close>, encoding \<open>n\<close> at width \<open>w\<close> succeeds with a string of
  \<open>w\<close> characters, and decoding that string gives \<open>n\<close> again. Below \<open>10^w\<close> the string
  consists of decimal digits only; from \<open>10^w\<close> on, the leading character is an upper-case
  letter in the first block of \<open>26 * 36^(w-1)\<close> values and a lower-case letter in the second.
\<close>

theorem hybrid36_round_trip:
  assumes "1 \<le> w" and "0 \<le> n" and "n < 10 ^ w + 52 * 36 ^ (w - 1)"
  shows "\<exists>s. encode n w = Inr s \<and> length s = w \<and> decode s = Inr n
           \<and> (n < 10 ^ w \<longrightarrow> set s \<subseteq> set digits_dec)
           \<and> (10 ^ w \<le> n \<and> n < 10 ^ w + 26 * 36 ^ (w - 1) \<longrightarrow> hd s \<in> set letters_upper)
           \<and> (10 ^ w + 26 * 36 ^ (w - 1) \<le> n \<longrightarrow> hd s \<in> set letters_lower)"
proof -
  have pos: "(0::int) < 36 ^ (w - 1)" by simp
  consider (dec) "n < 10 ^ w"
    | (up) "10 ^ w \<le> n" "n < 10 ^ w + 26 * 36 ^ (w - 1)"
    | (low) "10 ^ w + 26 * 36 ^ (w - 1) \<le> n"
    by linarith
  then show ?thesis
  proof cases
    case dec
    have hi: "\<not> 10 ^ w + 26 * 36 ^ (w - 1) \<le> n" using dec pos by linarith
    show ?thesis
      using round_trip_decimal [OF assms(1,2) dec] dec hi
      by (intro exI [of _ "encode_fixed digits_dec w (nat n)"])
        (simp add: encode_eq length_encode_fixed)
  next
    case up
    have hi: "\<not> 10 ^ w + 26 * 36 ^ (w - 1) \<le> n" using up by linarith
    show ?thesis
      using round_trip_upper [OF assms(1) up] up hi
      by (intro exI [of _ "letters_upper ! (nat (n - 10 ^ w) div 36 ^ (w - 1)) #
            encode_fixed digits_upper (w - 1) (nat (n - 10 ^ w) mod 36 ^ (w - 1))"])
        (simp add: encode_eq)
  next
    case low
    have lo: "\<not> n < 10 ^ w" "\<not> n < 10 ^ w + 26 * 36 ^ (w - 1)" using low pos by linarith+
    show ?thesis
      using round_trip_lower [OF assms(1) low assms(3)] low lo
      by (intro exI [of _ "letters_lower ! (nat (n - 10 ^ w - 26 * int (36 ^ (w - 1))) div 36 ^ (w - 1)) #
            encode_fixed digits_lower (w - 1) (nat (n - 10 ^ w - 26 * int (36 ^ (w - 1))) mod 36 ^ (w - 1))"])
        (simp add: encode_eq)
  qed
qed

theorem hybrid36_round_trip_witness:
  "(1::nat) \<le> 4 \<and> (0::int) \<le> 10035 \<and> (10035::int) < 10 ^ 4 + 52 * 36 ^ (4 - 1)
   \<and> (\<exists>s. encode 10035 4 = Inr s \<and> length s = 4 \<and> decode s = Inr 10035
           \<and> hd s \<in> set letters_upper)"
proof -
  have h1: "(1::nat) \<le> 4" by simp
  have h2: "(0::int) \<le> 10035" by simp
  have h3: "(10035::int) < 10 ^ 4 + 52 * 36 ^ (4 - 1)" by simp
  have up: "(10::int) ^ 4 \<le> 10035 \<and> (10035::int) < 10 ^ 4 + 26 * 36 ^ (4 - 1)" by simp
  from hybrid36_round_trip [OF h1 h2 h3] up h1 h2 h3 show ?thesis by blast
qed

text \<open>
  Claim C2. Upper-bound rejection: for every width \<open>w \<ge> 1\<close> and every integer
  \<open>n \<ge> 10^w + 52 * 36^(w-1)\<close>, encoding \<open>n\<close> at width \<open>w\<close> fails with an error; no string
  is produced, so the value is neither wrapped nor truncated.
\<close>

theorem encode_upper_bound_rejection:
  assumes "1 \<le> w" and "10 ^ w + 52 * 36 ^ (w - 1) \<le> n"
  shows "encode n w = Inl CodecRangeError"
proof -
  have pos: "(0::int) < 36 ^ (w - 1)" by simp
  have "\<not> n < 10 ^ w" "\<not> n < 10 ^ w + 26 * 36 ^ (w - 1)" "\<not> n < 10 ^ w + 52 * 36 ^ (w - 1)"
    using assms(2) pos by linarith+
  then show ?thesis
    using assms(1) by (simp add: encode_eq int_2_h36_def Let_def)
qed

theorem encode_upper_bound_rejection_witness:
  "(1::nat) \<le> 4 \<and> (10::int) ^ 4 + 52 * 36 ^ (4 - 1) \<le> 2436112
   \<and> encode 2436112 4 = Inl CodecRangeError"
proof -
  have h1: "(1::nat) \<le> 4" by simp
  have h2: "(10::int) ^ 4 + 52 * 36 ^ (4 - 1) \<le> 2436112" by simp
  show ?thesis
    by (intro conjI h1 h2 encode_upper_bound_rejection [OF h1 h2])
qed

lemma encode_fixed_numeral:
  "encode_fixed digs (numeral k) v =
     encode_fixed digs (pred_numeral k) (v div length digs) @ [digs ! (v mod length digs)]"
  by (simp add: numeral_eq_Suc)

lemmas h36_eval = encode_eq int_2_h36_def Let_def digits_dec_def digits_upper_def
  digits_lower_def letters_upper_def letters_lower_def encode_fixed_numeral

text \<open>
  Claim C3. Width-4 worked examples of the encoder: 0 gives \<open>0000\<close>, 9999 gives \<open>9999\<close>,
  10000 gives \<open>A000\<close>, 10035 gives \<open>A00Z\<close> and \<open>10000 + 26 * 36^3\<close> gives \<open>a000\<close>.
\<close>

theorem encode_width4_examples:
  "encode 0 4 = Inr ''0000'' \<and> encode 9999 4 = Inr ''9999'' \<and> encode 10000 4 = Inr ''A000''
   \<and> encode 10035 4 = Inr ''A00Z'' \<and> encode (10000 + 26 * 36 ^ 3) 4 = Inr ''a000''"
  by (simp add: h36_eval)

section \<open>Names and chain labels\<close>

lemma replicate_numeral:
  "replicate (numeral k) x = x # replicate (pred_numeral k) x"
  by (simp add: numeral_eq_Suc)

lemmas resname_eval = ResName_convert_input_def strip_def py_isspace_def dict_get_def
  ResName_NAMD_def Let_def

text \<open>
  Claim C6. Residue-name terminus stripping: normalization looks for the digit \<open>5\<close> before
  the digit \<open>3\<close> and removes the marker before the table lookup, so \<open>CYT5\<close> and \<open>CYT3\<close>
  both normalize to \<open>DC\<close>, and the \<open>GUA\<close>, \<open>THY\<close> and \<open>ADE\<close> variants to \<open>DG\<close>, \<open>DT\<close> and
  \<open>DA\<close>. With both digits present only the \<open>5\<close> is removed: \<open>CYT53\<close> becomes \<open>CYT3\<close>.
\<close>

theorem resname_terminus_stripping:
  "ResName_convert_input ''CYT5'' = ''DC'' \<and> ResName_convert_input ''CYT3'' = ''DC''
   \<and> ResName_convert_input ''GUA5'' = ''DG'' \<and> ResName_convert_input ''GUA3'' = ''DG''
   \<and> ResName_convert_input ''THY5'' = ''DT'' \<and> ResName_convert_input ''THY3'' = ''DT''
   \<and> ResName_convert_input ''ADE5'' = ''DA'' \<and> ResName_convert_input ''ADE3'' = ''DA''
   \<and> ResName_convert_input ''CYT53'' = ''CYT3''
   \<and> resname_name (ResName_init ''CYT5'') = ''DC'' \<and> resname_name (ResName_init ''CYT3'') = ''DC''"
  by (simp add: resname_eval ResName_init_def)

lemmas atomname_eval = AtomName_as_pdb4namd_def AtomName_init_def AtomName_convert_input_def
  strip_def py_isspace_def dict_get_def dict_invert_def AtomName_NAMD_def Let_def
  ljust_def rjust_def replicate_numeral

text \<open>
  Claim C9. Legacy atom-name padding. The claim gives a 2-character name one trailing
  space before it is right-justified. In \<open>AtomName.as_pdb4namd\<close> the branch for length 2
  calls \<open>ljust(1, " ")\<close>, which leaves a 2-character name as it is: \<open>N1\<close> at width 4 is
  rendered as two spaces and \<open>N1\<close>, not as one space, \<open>N1\<close> and a trailing space. The
  1-character and the 3-character renderings are as the claim says.
\<close>

theorem atomname_two_char_no_padding:
  "AtomName_as_pdb4namd (AtomName_init ''N1'') 4 = ''  N1''
   \<and> AtomName_as_pdb4namd (AtomName_init ''N1'') 4 \<noteq> rjust 4 (''N1'' @ '' '')
   \<and> AtomName_as_pdb4namd (AtomName_init ''P'') 4 = ''  P ''
   \<and> AtomName_as_pdb4namd (AtomName_init ''OP1'') 4 = '' O1P''"
  by (simp add: atomname_eval)

lemma str_nat_small: "m < 10 \<Longrightarrow> str_nat m = [digits_dec ! m]"
  by (subst str_nat.simps) simp








text \<open>
  Claim C5. Identifier decoding from a string. The claim has the whitespace around the
  input stripped first. \<open>Number._convert_input\<close> and \<open>ChainID._convert_input\<close> call
  \<open>inpt.strip()\<close> without assigning its result, so the numeral 12 with a space on each
  side is not recognised as decimal: whatever the hybrid-36 decoder is, it receives the
  string with its spaces, and the decoder of the spec rejects it, while the bare numeral
  decodes to 12.
\<close>

theorem convert_input_unstripped:
  "(\<forall>h. Number_convert_input_with h (StrIn '' 12 '') = h '' 12 '')
   \<and> (\<forall>h. ChainID_convert_input_with h (StrIn '' 12 '') = h '' 12 '')
   \<and> Number_convert_input (StrIn '' 12 '') = Inl CodecFormatError
   \<and> ChainID_convert_input (StrIn '' 12 '') = Inl CodecFormatError
   \<and> Number_convert_input (StrIn ''12'') = Inr 12
   \<and> ChainID_convert_input (StrIn ''12'') = Inr 12"
  by (simp add: Number_convert_input_def Number_convert_input_with_def
      ChainID_convert_input_def ChainID_convert_input_with_def py_isdigit_def
      py_isdigit_char_def py_int_def digits_dec_def h36_2_int_def letters_upper_def
      letters_lower_def)

section \<open>The entity blocks\<close>

lemma fold_append_lines:
  "fold (\<lambda>item out. out @ f item) xs init = init @ concat (map f xs)"
  by (induction xs arbitrary: init) simp_all

text \<open>
  Claim C7. Staple/scaffold classification boundary: the entity block and the entity\_src
  block both test \<open>length < 500\<close> on the chain's maximum residue number. Below 500 the
  chain is a staple (\<open>syn\<close>, \<open>'STAPLE STRAND'\<close>, organism \<open>'synthetic construct'\<close>, taxonomy
  id 32630); from 500 on it is a scaffold, with question marks in those fields. Each
  block is its template followed by one such line per chain.
\<close>

theorem staple_scaffold_classification:
  "entity_line (c, l) =
     ljust 4 (py_str c) @
       (if l < 500 then '' polymer syn 'STAPLE STRAND'   ?   1 ? ? ? ?\<newline>''
        else '' polymer ?   'SCAFFOLD STRAND' ?   1 ? ? ? ?\<newline>'')
   \<and> entity_src_line (c, l) =
     ljust 4 (py_str c) @ ''   1 sample 1 '' @ ljust 5 (py_str l) @
       (if l < 500 then '' 'synthetic construct' ? 32630 ?\<newline>''
        else '' ?                     ? ?     ?\<newline>'')
   \<and> write_entity entity self file_out =
       file_out @ entity @ concat (map entity_line (cif_chains self))
   \<and> write_entity_src entity_src self file_out =
       file_out @ entity_src @ concat (map entity_src_line (cif_chains self))"
proof (intro conjI)
  show "entity_line (c, l) =
     ljust 4 (py_str c) @
       (if l < 500 then '' polymer syn 'STAPLE STRAND'   ?   1 ? ? ? ?\<newline>''
        else '' polymer ?   'SCAFFOLD STRAND' ?   1 ? ? ? ?\<newline>'')"
    by (simp add: entity_line_def Let_def)
  show "entity_src_line (c, l) =
     ljust 4 (py_str c) @ ''   1 sample 1 '' @ ljust 5 (py_str l) @
       (if l < 500 then '' 'synthetic construct' ? 32630 ?\<newline>''
        else '' ?                     ? ?     ?\<newline>'')"
    by (simp add: entity_src_line_def Let_def ljust_def replicate_numeral)
  show "write_entity entity self file_out =
       file_out @ entity @ concat (map entity_line (cif_chains self))"
    by (simp add: write_entity_def fold_append_lines)
  show "write_entity_src entity_src self file_out =
       file_out @ entity_src @ concat (map entity_src_line (cif_chains self))"
    by (simp add: write_entity_src_def fold_append_lines)
qed

lemma str_nat_499: "str_nat 499 = ''499''"
proof -
  have "str_nat 4 = ''4''" by (simp add: str_nat_small digits_dec_def)
  then have "str_nat 49 = ''49''" by (simp add: str_nat.simps [of 49] digits_dec_def)
  then show ?thesis by (simp add: str_nat.simps [of 499] digits_dec_def)
qed

lemma str_nat_500: "str_nat 500 = ''500''"
proof -
  have "str_nat 5 = ''5''" by (simp add: str_nat_small digits_dec_def)
  then have "str_nat 50 = ''50''" by (simp add: str_nat.simps [of 50] digits_dec_def)
  then show ?thesis by (simp add: str_nat.simps [of 500] digits_dec_def)
qed

lemma str_nat_7: "str_nat 7 = ''7''"
  by (simp add: str_nat_small digits_dec_def)

theorem staple_scaffold_classification_witness:
  "entity_line (7, 499) = ''7    polymer syn 'STAPLE STRAND'   ?   1 ? ? ? ?\<newline>''
   \<and> entity_line (7, 500) = ''7    polymer ?   'SCAFFOLD STRAND' ?   1 ? ? ? ?\<newline>''
   \<and> entity_src_line (7, 499) = ''7      1 sample 1 499   'synthetic construct' ? 32630 ?\<newline>''
   \<and> entity_src_line (7, 500) = ''7      1 sample 1 500   ?                     ? ?     ?\<newline>''"
  using staple_scaffold_classification [of 7 499] staple_scaffold_classification [of 7 500]
  by (simp add: py_str_def str_nat_7 str_nat_499 str_nat_500 ljust_def replicate_numeral)

section \<open>The structure aggregator\<close>

lemma step_fst:
  "fst (chains_seqs_step a cs) =
     (case map_of (fst cs) (chain_n (chain_id a)) of
        None \<Rightarrow> AList.update (chain_n (chain_id a)) (number_n (res_number a)) (fst cs)
      | Some cur \<Rightarrow>
          if number_n (res_number a) > cur
          then AList.update (chain_n (chain_id a)) (number_n (res_number a)) (fst cs)
          else fst cs)"
  by (simp add: chains_seqs_step_def Let_def)

lemma step_snd:
  "snd (chains_seqs_step a cs) =
     (case map_of (snd cs) (chain_n (chain_id a)) of
        None \<Rightarrow> AList.update (chain_n (chain_id a)) [res_name a] (snd cs)
      | Some s \<Rightarrow> AList.update (chain_n (chain_id a)) (s @ [res_name a]) (snd cs))"
  by (simp add: chains_seqs_step_def Let_def)

lemma map_of_Some_key: "map_of al k = Some v \<Longrightarrow> k \<in> set (map fst al)"
  by (induction al) (auto split: if_splits)

lemma keys_step_fst:
  "map fst (fst (chains_seqs_step a cs)) =
     (if chain_n (chain_id a) \<in> set (map fst (fst cs)) then map fst (fst cs)
      else map fst (fst cs) @ [chain_n (chain_id a)])"
proof (cases "map_of (fst cs) (chain_n (chain_id a))")
  case None
  then have "chain_n (chain_id a) \<notin> set (map fst (fst cs))"
    by (simp add: map_of_eq_None_iff)
  with None show ?thesis by (simp add: step_fst update_keys)
next
  case (Some cur)
  then have "chain_n (chain_id a) \<in> set (map fst (fst cs))"
    by (rule map_of_Some_key)
  with Some show ?thesis by (simp add: step_fst update_keys)
qed

lemma keys_step_snd:
  "map fst (snd (chains_seqs_step a cs)) =
     (if chain_n (chain_id a) \<in> set (map fst (snd cs)) then map fst (snd cs)
      else map fst (snd cs) @ [chain_n (chain_id a)])"
proof (cases "map_of (snd cs) (chain_n (chain_id a))")
  case None
  then have "chain_n (chain_id a) \<notin> set (map fst (snd cs))"
    by (simp add: map_of_eq_None_iff)
  with None show ?thesis by (simp add: step_snd update_keys)
next
  case (Some s)
  then have "chain_n (chain_id a) \<in> set (map fst (snd cs))"
    by (rule map_of_Some_key)
  with Some show ?thesis by (simp add: step_snd update_keys)
qed

lemma keys_fold_fst:
  "map fst (fst (fold chains_seqs_step as ([], []))) =
     rev (remdups (rev (map (\<lambda>a. chain_n (chain_id a)) as)))"
proof (induction as rule: rev_induct)
  case Nil
  show ?case by simp
next
  case (snoc x xs)
  have "set (map fst (fst (fold chains_seqs_step xs ([], [])))) =
          set (map (\<lambda>a. chain_n (chain_id a)) xs)"
    by (simp only: snoc.IH set_rev set_remdups)
  then show ?case
    using snoc.IH by (simp add: keys_step_fst)
qed

lemma keys_fold_snd:
  "map fst (snd (fold chains_seqs_step as ([], []))) =
     rev (remdups (rev (map (\<lambda>a. chain_n (chain_id a)) as)))"
proof (induction as rule: rev_induct)
  case Nil
  show ?case by simp
next
  case (snoc x xs)
  have "set (map fst (snd (fold chains_seqs_step xs ([], [])))) =
          set (map (\<lambda>a. chain_n (chain_id a)) xs)"
    by (simp only: snoc.IH set_rev set_remdups)
  then show ?case
    using snoc.IH by (simp add: keys_step_snd)
qed

lemma seq_fold:
  "map_of (snd (fold chains_seqs_step as ([], []))) c =
     (if c \<in> (\<lambda>a. chain_n (chain_id a)) ` set as
      then Some (map res_name (filter (\<lambda>a. chain_n (chain_id a) = c) as))
      else None)"
proof (induction as arbitrary: c rule: rev_induct)
  case Nil
  show ?case by simp
next
  case (snoc x xs)
  let ?k = "chain_n (chain_id x)"
  let ?prev = "fold chains_seqs_step xs ([], [])"
  show ?case
  proof (cases "c = ?k")
    case True
    show ?thesis
    proof (cases "?k \<in> (\<lambda>a. chain_n (chain_id a)) ` set xs")
      case False
      then have "map_of (snd ?prev) ?k = None"
        using snoc.IH [of ?k] by simp
      moreover have "filter (\<lambda>a. chain_n (chain_id a) = ?k) xs = []"
        using False by (auto simp: filter_empty_conv image_iff)
      ultimately show ?thesis
        using True by (simp add: step_snd update_conv')
    next
      case in_xs: True
      then have "map_of (snd ?prev) ?k =
          Some (map res_name (filter (\<lambda>a. chain_n (chain_id a) = ?k) xs))"
        using snoc.IH [of ?k] by simp
      then show ?thesis
        using True by (simp add: step_snd update_conv')
    qed
  next
    case False
    have "map_of (snd (chains_seqs_step x ?prev)) c = map_of (snd ?prev) c"
      using False by (simp add: step_snd update_conv' split: option.splits)
    then show ?thesis
      using False snoc.IH [of c] by auto
  qed
qed

lemma max_fold:
  "map_of (fst (fold chains_seqs_step as ([], []))) c =
     (if c \<in> (\<lambda>a. chain_n (chain_id a)) ` set as
      then Some (Max (set (map (\<lambda>a. number_n (res_number a))
                   (filter (\<lambda>a. chain_n (chain_id a) = c) as))))
      else None)"
proof (induction as arbitrary: c rule: rev_induct)
  case Nil
  show ?case by simp
next
  case (snoc x xs)
  let ?k = "chain_n (chain_id x)"
  let ?r = "number_n (res_number x)"
  let ?prev = "fold chains_seqs_step xs ([], [])"
  show ?case
  proof (cases "c = ?k")
    case True
    show ?thesis
    proof (cases "?k \<in> (\<lambda>a. chain_n (chain_id a)) ` set xs")
      case False
      then have "map_of (fst ?prev) ?k = None"
        using snoc.IH [of ?k] by simp
      moreover have "filter (\<lambda>a. chain_n (chain_id a) = ?k) xs = []"
        using False by (auto simp: filter_empty_conv image_iff)
      ultimately show ?thesis
        using True by (simp add: step_fst update_conv')
    next
      case in_xs: True
      let ?S = "set (map (\<lambda>a. number_n (res_number a))
                   (filter (\<lambda>a. chain_n (chain_id a) = ?k) xs))"
      have prev: "map_of (fst ?prev) ?k = Some (Max ?S)"
        using in_xs snoc.IH [of ?k] by simp
      have ne: "?S \<noteq> {}" using in_xs by (auto simp: filter_empty_conv)
      have fin: "finite ?S" by simp
      have mx: "Max (insert ?r ?S) = max ?r (Max ?S)"
        using fin ne by (rule Max_insert)
      have "map_of (fst (chains_seqs_step x ?prev)) ?k = Some (max ?r (Max ?S))"
        using prev by (simp add: step_fst update_conv' max_def)
      then show ?thesis
        using True mx by simp
    qed
  next
    case False
    have "map_of (fst (chains_seqs_step x ?prev)) c = map_of (fst ?prev) c"
      using False by (simp add: step_fst update_conv' split: option.splits)
    then show ?thesis
      using False snoc.IH [of c] by auto
  qed
qed

lemma distinct_map_filter_unique:
  "(\<And>x. x \<in> set xs \<Longrightarrow> length (filter (\<lambda>y. f y = f x) xs) \<le> 1) \<Longrightarrow> distinct (map f xs)"
proof (induction xs)
  case Nil
  show ?case by simp
next
  case (Cons a xs)
  have "length (filter (\<lambda>y. f y = f a) (a # xs)) \<le> 1"
    by (rule Cons.prems) simp
  then have "filter (\<lambda>y. f y = f a) xs = []" by simp
  then have notin: "f a \<notin> f ` set xs" by (auto simp: filter_empty_conv)
  have "distinct (map f xs)"
  proof (rule Cons.IH)
    fix x assume x: "x \<in> set xs"
    have "length (filter (\<lambda>y. f y = f x) (a # xs)) \<le> 1"
      by (rule Cons.prems) (simp add: x)
    then show "length (filter (\<lambda>y. f y = f x) xs) \<le> 1"
      by (simp split: if_splits)
  qed
  with notin show ?case by simp
qed

lemma example_atom_names:
  "AtomName_as_str (AtomName_init ''P'') = ''P''"
  "AtomName_as_str (AtomName_init ''N1'') = ''N1''"
  "AtomName_as_str (AtomName_init C3p) = C3p"
  by (simp_all add: AtomName_as_str_def AtomName_init_def AtomName_convert_input_def
      strip_def py_isspace_def dict_get_def AtomName_NAMD_def C3p_def Let_def)

lemma example_atom_fields:
  "AtomName_as_str (atom_name (mk_atom name res chain num)) = AtomName_as_str (AtomName_init name)"
  "chain_n (chain_id (mk_atom name res chain num)) = chain"
  "number_n (res_number (mk_atom name res chain num)) = num"
  "res_name (mk_atom name res chain num) = ResName_init res"
  by (simp_all add: mk_atom_def)

lemma example_not_anchor: "''P'' \<noteq> C3p" "''N1'' \<noteq> C3p"
  by (simp_all add: C3p_def)

lemma get_chains_seqs_fold:
  "get_chains_seqs st =
     fold chains_seqs_step
       (filter (\<lambda>a. AtomName_as_str (atom_name a) = C3p) (struct_atoms st)) ([], [])"
  by (simp add: get_chains_seqs_def)

text \<open>
  Claim C8. Aggregator anchor counting: in a structure where every residue (a chain
  number with a residue number) has exactly one atom named \<open>C3'\<close>, the sequence derived for
  a chain \<open>c\<close> that occurs in the structure is the list of the residue names of that
  chain's anchor atoms in document order, its length is the number of residues of the
  chain (not the number of atoms), and the chain's \<open>max_residue_number\<close> is the largest
  residue number among the chain's anchor atoms.
\<close>

theorem anchor_counting:
  assumes one: "\<forall>a\<in>set (struct_atoms st).
      length (filter (\<lambda>b. AtomName_as_str (atom_name b) = C3p
                          \<and> chain_n (chain_id b) = chain_n (chain_id a)
                          \<and> number_n (res_number b) = number_n (res_number a))
                (struct_atoms st)) = 1"
    and occ: "c \<in> (\<lambda>a. chain_n (chain_id a)) ` set (struct_atoms st)"
  shows "map_of (snd (get_chains_seqs st)) c =
           Some (map res_name
             (filter (\<lambda>a. AtomName_as_str (atom_name a) = C3p \<and> chain_n (chain_id a) = c)
                (struct_atoms st)))
       \<and> length (filter (\<lambda>a. AtomName_as_str (atom_name a) = C3p \<and> chain_n (chain_id a) = c)
                (struct_atoms st)) =
           card ((\<lambda>a. number_n (res_number a)) `
                   {a \<in> set (struct_atoms st). chain_n (chain_id a) = c})
       \<and> map_of (fst (get_chains_seqs st)) c =
           Some (Max (set (map (\<lambda>a. number_n (res_number a))
             (filter (\<lambda>a. AtomName_as_str (atom_name a) = C3p \<and> chain_n (chain_id a) = c)
                (struct_atoms st)))))"
proof -
  let ?atoms = "struct_atoms st"
  let ?anchor = "\<lambda>a. AtomName_as_str (atom_name a) = C3p"
  let ?cid = "\<lambda>a. chain_n (chain_id a)"
  let ?rn = "\<lambda>a. number_n (res_number a)"
  let ?anchors = "filter (\<lambda>a. ?anchor a \<and> ?cid a = c) ?atoms"
  have ff: "filter (\<lambda>a. ?cid a = c) (filter ?anchor ?atoms) = ?anchors"
    by (simp add: conj_commute)
  obtain a0 where a0: "a0 \<in> set ?atoms" "?cid a0 = c"
    using occ by auto
  have ex_anchor: "\<exists>b \<in> set ?atoms. ?anchor b \<and> ?cid b = ?cid a \<and> ?rn b = ?rn a"
    if "a \<in> set ?atoms" for a
  proof -
    have "length (filter (\<lambda>b. ?anchor b \<and> ?cid b = ?cid a \<and> ?rn b = ?rn a) ?atoms) = 1"
      using one that by blast
    then have "filter (\<lambda>b. ?anchor b \<and> ?cid b = ?cid a \<and> ?rn b = ?rn a) ?atoms \<noteq> []"
      by auto
    then show ?thesis by (auto simp: filter_empty_conv)
  qed
  have in_img: "c \<in> ?cid ` set (filter ?anchor ?atoms)"
    using ex_anchor [OF a0(1)] a0(2) by (auto simp: image_iff)
  have seq: "map_of (snd (get_chains_seqs st)) c = Some (map res_name ?anchors)"
    using in_img by (simp only: get_chains_seqs_fold seq_fold ff if_True)
  have mx: "map_of (fst (get_chains_seqs st)) c = Some (Max (set (map ?rn ?anchors)))"
    using in_img by (simp only: get_chains_seqs_fold max_fold ff if_True)
  have dist: "distinct (map ?rn ?anchors)"
  proof (rule distinct_map_filter_unique)
    fix x assume "x \<in> set ?anchors"
    then have x: "x \<in> set ?atoms" "?cid x = c" by auto
    have "filter (\<lambda>y. ?rn y = ?rn x) ?anchors =
            filter (\<lambda>b. ?anchor b \<and> ?cid b = ?cid x \<and> ?rn b = ?rn x) ?atoms"
      using x(2) by (auto intro: filter_cong)
    moreover have "length (filter (\<lambda>b. ?anchor b \<and> ?cid b = ?cid x \<and> ?rn b = ?rn x) ?atoms) = 1"
      using one x(1) by blast
    ultimately show "length (filter (\<lambda>y. ?rn y = ?rn x) ?anchors) \<le> 1" by simp
  qed
  have sets: "set (map ?rn ?anchors) = ?rn ` {a \<in> set ?atoms. ?cid a = c}"
  proof
    show "set (map ?rn ?anchors) \<subseteq> ?rn ` {a \<in> set ?atoms. ?cid a = c}" by auto
    show "?rn ` {a \<in> set ?atoms. ?cid a = c} \<subseteq> set (map ?rn ?anchors)"
    proof
      fix r assume "r \<in> ?rn ` {a \<in> set ?atoms. ?cid a = c}"
      then obtain a where a: "a \<in> set ?atoms" "?cid a = c" "r = ?rn a" by auto
      from ex_anchor [OF a(1)] obtain b where
        "b \<in> set ?atoms" "?anchor b" "?cid b = ?cid a" "?rn b = ?rn a" by blast
      then have "b \<in> set ?anchors" "?rn b = r" using a by auto
      then show "r \<in> set (map ?rn ?anchors)" by (auto simp: image_iff)
    qed
  qed
  have "length ?anchors = length (map ?rn ?anchors)" by simp
  also have "\<dots> = card (set (map ?rn ?anchors))"
    using dist by (rule distinct_card [symmetric])
  also have "\<dots> = card (?rn ` {a \<in> set ?atoms. ?cid a = c})"
    by (simp only: sets)
  finally have len: "length ?anchors = card (?rn ` {a \<in> set ?atoms. ?cid a = c})" .
  from seq len mx show ?thesis by (intro conjI)
qed


theorem anchor_counting_witness:
  "1 \<in> (\<lambda>a. chain_n (chain_id a)) ` set (struct_atoms example_struct)
   \<and> length (struct_atoms example_struct) = 9
   \<and> map_of (snd (get_chains_seqs example_struct)) 1 =
        Some [ResName_init ''ADE'', ResName_init ''CYT'']
   \<and> card ((\<lambda>a. number_n (res_number a)) `
        {a \<in> set (struct_atoms example_struct). chain_n (chain_id a) = 1}) = 2
   \<and> map_of (fst (get_chains_seqs example_struct)) 1 = Some 2"
proof -
  have h1: "\<forall>a\<in>set (struct_atoms example_struct).
      length (filter (\<lambda>b. AtomName_as_str (atom_name b) = C3p
                          \<and> chain_n (chain_id b) = chain_n (chain_id a)
                          \<and> number_n (res_number b) = number_n (res_number a))
                (struct_atoms example_struct)) = 1"
    by (simp add: example_struct_def example_atom_fields example_atom_names example_not_anchor)
  have h2: "1 \<in> (\<lambda>a. chain_n (chain_id a)) ` set (struct_atoms example_struct)"
    by (simp add: example_struct_def example_atom_fields)
  have h3: "length (struct_atoms example_struct) = 9"
    by (simp add: example_struct_def)
  have anchors: "filter (\<lambda>a. AtomName_as_str (atom_name a) = C3p \<and> chain_n (chain_id a) = 1)
       (struct_atoms example_struct) = [mk_atom C3p ''ADE'' 1 1, mk_atom C3p ''CYT'' 1 2]"
    by (simp add: example_struct_def example_atom_fields example_atom_names example_not_anchor)
  from anchor_counting [OF h1 h2] h2 h3 show ?thesis
    by (simp add: anchors example_atom_fields)
qed

section \<open>Chain lines and sequence records\<close>

lemma write_poly_records_Inr:
  "write_poly_records f items out = Inr res \<Longrightarrow>
     \<exists>recs. map (entity_poly_record f) items = map Inr recs \<and> res = out @ concat recs"
proof (induction items arbitrary: out)
  case Nil
  then show ?case by simp
next
  case (Cons item items)
  from Cons.prems obtain r where r: "entity_poly_record f item = Inr r"
    and rest: "write_poly_records f items (out @ r) = Inr res"
    by (auto split: sum.splits)
  from Cons.IH [OF rest] obtain recs where
    "map (entity_poly_record f) items = map Inr recs" "res = (out @ r) @ concat recs"
    by blast
  then have "map (entity_poly_record f) (item # items) = map Inr (r # recs)
      \<and> res = out @ concat (r # recs)"
    using r by simp
  then show ?case by blast
qed

lemma entity_poly_record_prefix:
  "entity_poly_record f item = Inr r \<Longrightarrow> prefix (ljust 4 (py_str (fst item))) r"
  by (auto simp: entity_poly_record_def Let_def split: sum.splits)

lemma entity_line_prefix: "prefix (ljust 4 (py_str (fst item))) (entity_line item)"
  by (simp add: entity_line_def Let_def)

lemma entity_src_line_prefix: "prefix (ljust 4 (py_str (fst item))) (entity_src_line item)"
  by (simp add: entity_src_line_def Let_def)

lemma list_all2_prefix_map:
  "(\<And>x. x \<in> set xs \<Longrightarrow> prefix (lab x) (g x)) \<Longrightarrow> list_all2 prefix (map lab xs) (map g xs)"
  by (induction xs) simp_all

lemma poly_records_labels:
  "map (entity_poly_record f) items = map Inr recs \<Longrightarrow>
     list_all2 prefix (map (\<lambda>item. ljust 4 (py_str (fst item))) items) recs"
proof (induction items arbitrary: recs)
  case Nil
  then show ?case by simp
next
  case (Cons item items)
  then obtain r rs where recs: "recs = r # rs" by (cases recs) auto
  with Cons.prems have r: "entity_poly_record f item = Inr r"
    and rs: "map (entity_poly_record f) items = map Inr rs" by auto
  show ?case
    using entity_poly_record_prefix [OF r] Cons.IH [OF rs] by (simp add: recs)
qed

lemma labels_by_keys:
  "map (\<lambda>item. ljust 4 (py_str (fst item))) xs = map (\<lambda>k. ljust 4 (py_str k)) (map fst xs)"
  by (simp add: comp_def)

lemma cif_keys:
  "map fst (cif_chains (CIF_init as_cif st)) =
     rev (remdups (rev (map (\<lambda>a. chain_n (chain_id a))
       (filter (\<lambda>a. AtomName_as_str (atom_name a) = C3p) (struct_atoms st)))))"
  "map fst (cif_seqs (CIF_init as_cif st)) =
     rev (remdups (rev (map (\<lambda>a. chain_n (chain_id a))
       (filter (\<lambda>a. AtomName_as_str (atom_name a) = C3p) (struct_atoms st)))))"
  by (simp_all add: CIF_init_def get_chains_seqs_fold keys_fold_fst keys_fold_snd)

text \<open>
  Claim C10, as amended. After constructing a CIF emitter from any structure, the
  per-chain max-residue-number dictionary and the per-chain sequence dictionary have
  the same keys in the same order, the order in which the chains first appear among the
  anchor atoms, each key once. The entity and entity\_src blocks are their templates
  followed by one line per chain, each line starting with the chain's label
  \<open>str(chain_id).ljust(4)\<close>. Whenever \<open>_write_entity_poly\<close> completes without raising, the
  entity\_poly block is its template followed by exactly one record per chain, in the
  same order and starting with the same labels, so lines and records correspond one to
  one.
\<close>

theorem entity_blocks_correspond:
  "map fst (cif_chains (CIF_init as_cif st)) = map fst (cif_seqs (CIF_init as_cif st))
   \<and> map fst (cif_chains (CIF_init as_cif st)) =
       rev (remdups (rev (map (\<lambda>a. chain_n (chain_id a))
         (filter (\<lambda>a. AtomName_as_str (atom_name a) = C3p) (struct_atoms st)))))
   \<and> distinct (map fst (cif_chains (CIF_init as_cif st)))
   \<and> write_entity entity (CIF_init as_cif st) out_e =
       out_e @ entity @ concat (map entity_line (cif_chains (CIF_init as_cif st)))
   \<and> write_entity_src entity_src (CIF_init as_cif st) out_s =
       out_s @ entity_src @ concat (map entity_src_line (cif_chains (CIF_init as_cif st)))
   \<and> list_all2 prefix
       (map (\<lambda>item. ljust 4 (py_str (fst item))) (cif_chains (CIF_init as_cif st)))
       (map entity_line (cif_chains (CIF_init as_cif st)))
   \<and> list_all2 prefix
       (map (\<lambda>item. ljust 4 (py_str (fst item))) (cif_chains (CIF_init as_cif st)))
       (map entity_src_line (cif_chains (CIF_init as_cif st)))
   \<and> (\<forall>res. write_entity_poly entity_poly f (CIF_init as_cif st) out_p = Inr res \<longrightarrow>
         (\<exists>recs. res = out_p @ entity_poly @ concat recs
            \<and> map (entity_poly_record f) (cif_seqs (CIF_init as_cif st)) = map Inr recs
            \<and> list_all2 prefix
                (map (\<lambda>item. ljust 4 (py_str (fst item))) (cif_chains (CIF_init as_cif st)))
                recs))"
proof -
  let ?cif = "CIF_init as_cif st"
  let ?lab = "\<lambda>item. ljust 4 (py_str (fst item))"
  have keys: "map fst (cif_chains ?cif) = map fst (cif_seqs ?cif)"
    by (simp only: cif_keys)
  have order: "map fst (cif_chains ?cif) =
       rev (remdups (rev (map (\<lambda>a. chain_n (chain_id a))
         (filter (\<lambda>a. AtomName_as_str (atom_name a) = C3p) (struct_atoms st)))))"
    by (rule cif_keys)
  have dist: "distinct (map fst (cif_chains ?cif))"
    by (simp only: order distinct_rev distinct_remdups)
  have we: "write_entity entity ?cif out_e =
       out_e @ entity @ concat (map entity_line (cif_chains ?cif))"
    by (simp add: write_entity_def fold_append_lines)
  have ws: "write_entity_src entity_src ?cif out_s =
       out_s @ entity_src @ concat (map entity_src_line (cif_chains ?cif))"
    by (simp add: write_entity_src_def fold_append_lines)
  have le: "list_all2 prefix (map ?lab (cif_chains ?cif)) (map entity_line (cif_chains ?cif))"
    by (rule list_all2_prefix_map) (rule entity_line_prefix)
  have ls: "list_all2 prefix (map ?lab (cif_chains ?cif)) (map entity_src_line (cif_chains ?cif))"
    by (rule list_all2_prefix_map) (rule entity_src_line_prefix)
  have labs: "map ?lab (cif_chains ?cif) = map ?lab (cif_seqs ?cif)"
    by (simp only: labels_by_keys keys)
  have poly: "\<exists>recs. res = out_p @ entity_poly @ concat recs
            \<and> map (entity_poly_record f) (cif_seqs ?cif) = map Inr recs
            \<and> list_all2 prefix (map ?lab (cif_chains ?cif)) recs"
    if ok: "write_entity_poly entity_poly f ?cif out_p = Inr res" for res
  proof -
    from ok have "write_poly_records f (cif_seqs ?cif) (out_p @ entity_poly) = Inr res"
      by (simp add: write_entity_poly_def)
    from write_poly_records_Inr [OF this] obtain recs where
      recs: "map (entity_poly_record f) (cif_seqs ?cif) = map Inr recs"
      and res: "res = (out_p @ entity_poly) @ concat recs"
      by blast
    have "list_all2 prefix (map ?lab (cif_chains ?cif)) recs"
      using poly_records_labels [OF recs] by (simp only: labs)
    with recs res show ?thesis by auto
  qed
  from keys order dist we ws le ls poly show ?thesis by blast
qed

lemma example_chains_seqs:
  "get_chains_seqs example_struct =
     ([(1, 2), (2, 1)],
      [(1, [ResName_init ''ADE'', ResName_init ''CYT'']), (2, [ResName_init ''GUA''])])"
  by (simp add: get_chains_seqs_def example_struct_def example_atom_fields example_atom_names
      example_not_anchor chains_seqs_step_def Let_def)

lemma example_resnames:
  "resname_name (ResName_init ''ADE'') = ''DA''"
  "resname_name (ResName_init ''CYT'') = ''DC''"
  "resname_name (ResName_init ''GUA'') = ''DG''"
  "resname_name (ResName_init ''   '') = []"
  by (simp_all add: ResName_init_def resname_eval)

lemma str_nat_1_2: "str_nat (Suc 0) = ''1''" "str_nat 2 = ''2''"
  by (simp_all add: str_nat_small digits_dec_def)

lemma example_poly:
  "write_entity_poly ''P'' example_chimera (CIF_init example_as_cif example_struct) [] =
     Inr (''P'' @ concat
       [''1    polydeoxyribonucleotide no no\<newline>;(DA)(DC)\<newline>;\<newline>AC AA ?\<newline>'',
        ''2    polydeoxyribonucleotide no no\<newline>;(DG)\<newline>;\<newline>G AA ?\<newline>''])"
  by (simp add: write_entity_poly_def CIF_init_def example_chains_seqs entity_poly_record_def
      ChainID_init_def ChainID_convert_input_def ChainID_convert_input_with_def
      ChainID_as_chimera_def example_chimera_def ResName_as_str_def ResName_as_X_def
      example_resnames py_str_def str_nat_1_2 ljust_def replicate_numeral Let_def)

theorem entity_blocks_correspond_witness:
  "write_entity_poly ''P'' example_chimera (CIF_init example_as_cif example_struct) [] =
     Inr (''P'' @ concat
       [''1    polydeoxyribonucleotide no no\<newline>;(DA)(DC)\<newline>;\<newline>AC AA ?\<newline>'',
        ''2    polydeoxyribonucleotide no no\<newline>;(DG)\<newline>;\<newline>G AA ?\<newline>''])
   \<and> map fst (cif_chains (CIF_init example_as_cif example_struct)) = [1, 2]
   \<and> map fst (cif_seqs (CIF_init example_as_cif example_struct)) = [1, 2]
   \<and> list_all2 prefix [''1   '', ''2   '']
        (map entity_line (cif_chains (CIF_init example_as_cif example_struct)))
   \<and> (\<exists>recs. ''P'' @ concat
       [''1    polydeoxyribonucleotide no no\<newline>;(DA)(DC)\<newline>;\<newline>AC AA ?\<newline>'',
        ''2    polydeoxyribonucleotide no no\<newline>;(DG)\<newline>;\<newline>G AA ?\<newline>'']
         = [] @ ''P'' @ concat recs
       \<and> list_all2 prefix [''1   '', ''2   ''] recs)"
proof -
  let ?cif = "CIF_init example_as_cif example_struct"
  let ?res = "''P'' @ concat
       [''1    polydeoxyribonucleotide no no\<newline>;(DA)(DC)\<newline>;\<newline>AC AA ?\<newline>'',
        ''2    polydeoxyribonucleotide no no\<newline>;(DG)\<newline>;\<newline>G AA ?\<newline>'']"
  have labs: "map (\<lambda>item. ljust 4 (py_str (fst item))) (cif_chains ?cif) = [''1   '', ''2   '']"
    by (simp add: CIF_init_def example_chains_seqs py_str_def str_nat_1_2 ljust_def
        replicate_numeral)
  have ch: "map fst (cif_chains ?cif) = [1, 2]"
    by (simp add: CIF_init_def example_chains_seqs)
  note t = entity_blocks_correspond [where as_cif = example_as_cif and st = example_struct
      and entity_poly = "''P''" and f = example_chimera and out_p = "[]"
      and entity = "[]" and out_e = "[]" and entity_src = "[]" and out_s = "[]"]
  from t have sq: "map fst (cif_seqs ?cif) = [1, 2]"
    by (simp only: ch)
  from t have le: "list_all2 prefix [''1   '', ''2   ''] (map entity_line (cif_chains ?cif))"
    by (simp only: labs)
  from t have "write_entity_poly ''P'' example_chimera ?cif [] = Inr ?res \<longrightarrow>
      (\<exists>recs. ?res = [] @ ''P'' @ concat recs
         \<and> list_all2 prefix
              (map (\<lambda>item. ljust 4 (py_str (fst item))) (cif_chains ?cif)) recs)"
    by blast
  with example_poly have "\<exists>recs. ?res = [] @ ''P'' @ concat recs
         \<and> list_all2 prefix [''1   '', ''2   ''] recs"
    by (simp only: labs)
  with example_poly ch sq le show ?thesis by (intro conjI)
qed

lemma blank_chains_seqs:
  "get_chains_seqs blank_resname_struct =
     ([(1, 2)], [(1, [ResName_init ''ADE'', ResName_init ''   ''])])"
  by (simp add: get_chains_seqs_def blank_resname_struct_def example_atom_fields
      example_atom_names chains_seqs_step_def Let_def)

text \<open>
  Claim C10 as stated fails where \<open>_write_entity_poly\<close> raises. An anchor atom with a blank
  residue name gets the empty name, on which \<open>ResName.as_X\<close> raises \<open>IndexError\<close>: the
  entity and entity\_src blocks have their line for chain 1, and the entity\_poly block
  has no record for it.
\<close>

theorem entity_poly_missing_record_counterexample:
  "cif_chains (CIF_init example_as_cif blank_resname_struct) = [(1, 2)]
   \<and> map fst (cif_seqs (CIF_init example_as_cif blank_resname_struct)) = [1]
   \<and> write_entity [] (CIF_init example_as_cif blank_resname_struct) [] =
       ''1    polymer syn 'STAPLE STRAND'   ?   1 ? ? ? ?\<newline>''
   \<and> write_entity_src [] (CIF_init example_as_cif blank_resname_struct) [] =
       ''1      1 sample 1 2     'synthetic construct' ? 32630 ?\<newline>''
   \<and> write_entity_poly [] example_chimera (CIF_init example_as_cif blank_resname_struct) [] =
       Inl IndexError"
proof -
  let ?cif = "CIF_init example_as_cif blank_resname_struct"
  have c: "cif_chains ?cif = [(1, 2)]"
    by (simp add: CIF_init_def blank_chains_seqs)
  have s: "cif_seqs ?cif = [(1, [ResName_init ''ADE'', ResName_init ''   ''])]"
    by (simp add: CIF_init_def blank_chains_seqs)
  have e: "write_entity [] ?cif [] = ''1    polymer syn 'STAPLE STRAND'   ?   1 ? ? ? ?\<newline>''"
    by (simp add: write_entity_def c entity_line_def py_str_def str_nat_1_2 ljust_def
        replicate_numeral Let_def)
  have es: "write_entity_src [] ?cif [] =
       ''1      1 sample 1 2     'synthetic construct' ? 32630 ?\<newline>''"
    by (simp add: write_entity_src_def c entity_src_line_def py_str_def str_nat_1_2 ljust_def
        replicate_numeral Let_def)
  have p: "write_entity_poly [] example_chimera ?cif [] = Inl IndexError"
    by (simp add: write_entity_poly_def s entity_poly_record_def ChainID_init_def
        ChainID_convert_input_def ChainID_convert_input_with_def ChainID_as_chimera_def
        example_chimera_def ResName_as_X_def example_resnames Let_def)
  from c s e es p show ?thesis by simp
qed

end
